theory Spec2Isabelle
  imports Main "HOL-Library.Word"
begin

section \<open>The Qt stub backend (desktop/qt_stub.cpp)\<close>

text \<open>
  The stub keeps a logical widget graph in memory and writes traces to stderr.
  The embedding below follows the translation unit top to bottom: the \<open>Widget\<close>
  struct, the process-wide variables, \<open>trace\<close>, \<open>make_widget\<close>, \<open>kind_name\<close>,
  \<open>dump_widget\<close> and the exported C functions.
\<close>

subsection \<open>Values\<close>

text \<open>
  A C++ \<open>int\<close> is a 32-bit word read as two's complement; \<open>+\<close> wraps (what the usual
  compilers emit for \<open>next_id++\<close>; the language itself leaves signed overflow
  undefined), \<open>sint\<close> reads the value.
\<close>

type_synonym cint = "32 word"

text \<open>
  Widgets live on the free store and are never deleted. The store is the list of all
  objects created by \<open>new Widget()\<close>; the address of an object is its position, and
  a pointer (\<open>Widget*\<close>, or a \<open>void*\<close> handle) is \<open>None\<close> for \<open>nullptr\<close> or
  \<open>Some a\<close>. \<open>new\<close> always succeeds (running out of memory is left out). A
  \<open>const char*\<close> argument is \<open>None\<close> for \<open>NULL\<close> or the text.
\<close>

type_synonym addr = nat
type_synonym ptr = "addr option"
type_synonym cstr = "string option"

datatype Kind = Window | Button | Generic

record Widget =
  kind :: Kind
  title :: string
  label :: string
  width :: cint
  height :: cint
  parent :: ptr
  id_w :: cint

text \<open>The default member initialisers of the struct: what \<open>new Widget()\<close> yields.\<close>

definition Widget_init :: Widget where
  "Widget_init =
     \<lparr>kind = Generic, title = [], label = [], width = 0, height = 0, parent = None, id_w = 0\<rparr>"

text \<open>
  One line of stderr: the format string handed to \<open>trace\<close> and its arguments, one per
  \<open>%s\<close> or \<open>%d\<close>
  (the prefix \<open>[Qt Stub]\<close> and the newline are the same on every line).
\<close>

datatype arg = Arg_s string | Arg_d cint

type_synonym line = "string \<times> arg list"

text \<open>
  The process-wide variables of namespace \<open>qtstub\<close>, the free store and stderr.
  The mutex \<open>g_mu\<close> has no field: a single thread of calls never finds it taken.
\<close>

record qtstub =
  g_running :: bool
  g_verbose :: bool
  next_id :: cint
  registry :: "addr list"
  heap :: "Widget list"
  stderr :: "line list"

text \<open>The state at program start, from the static initialisers.\<close>

definition qtstub_init :: qtstub where
  "qtstub_init =
     \<lparr>g_running = False, g_verbose = True, next_id = 1, registry = [], heap = [], stderr = []\<rparr>"

text \<open>
  Reading or writing through a pointer that is not the address of a \<open>Widget\<close> is
  undefined behaviour in C++; the model makes it a fault.
\<close>

datatype fault = Invalid_pointer

definition deref :: "qtstub \<Rightarrow> addr \<Rightarrow> fault + Widget" where
  "deref s a = (if a < length (heap s) then Inr (heap s ! a) else Inl Invalid_pointer)"

definition store :: "addr \<Rightarrow> (Widget \<Rightarrow> Widget) \<Rightarrow> qtstub \<Rightarrow> fault + qtstub" where
  "store a f s =
     (if a < length (heap s) then Inr (s\<lparr>heap := (heap s)[a := f (heap s ! a)]\<rparr>)
      else Inl Invalid_pointer)"

subsection \<open>Namespace qtstub\<close>

text \<open>
  The messages are UTF-8 in the source; the bytes outside ASCII are written out:
  the dash U+2014, e acute, e circumflex and the apostrophe U+2019.
\<close>

definition dash :: string where
  "dash = [CHR 0xE2, CHR 0x80, CHR 0x94]"

definition e_acute :: string where
  "e_acute = [CHR 0xC3, CHR 0xA9]"

definition e_circumflex :: string where
  "e_circumflex = [CHR 0xC3, CHR 0xAA]"

definition apostrophe :: string where
  "apostrophe = [CHR 0xE2, CHR 0x80, CHR 0x99]"

definition trace :: "string \<Rightarrow> arg list \<Rightarrow> qtstub \<Rightarrow> qtstub" where
  "trace fmt args s =
     (if \<not> g_verbose s then s else s\<lparr>stderr := stderr s @ [(fmt, args)]\<rparr>)"

text \<open>
  \<open>make_widget\<close>: \<open>new Widget()\<close>, \<open>w->kind = k\<close>, \<open>w->id = next_id++\<close>,
  \<open>registry.push_back(w)\<close>, \<open>return w\<close>, in this order.
\<close>

definition make_widget :: "Kind \<Rightarrow> qtstub \<Rightarrow> addr \<times> qtstub" where
  "make_widget k s0 =
     (let w = length (heap s0);
          s1 = s0\<lparr>heap := heap s0 @ [Widget_init]\<rparr>;
          s2 = s1\<lparr>heap := (heap s1)[w := (heap s1 ! w)\<lparr>kind := k\<rparr>]\<rparr>;
          s3 = s2\<lparr>heap := (heap s2)[w := (heap s2 ! w)\<lparr>id_w := next_id s2\<rparr>],
                  next_id := next_id s2 + 1\<rparr>;
          s4 = s3\<lparr>registry := registry s3 @ [w]\<rparr>
      in (w, s4))"

fun kind_name :: "Kind \<Rightarrow> string" where
  "kind_name Window = ''Window''"
| "kind_name Button = ''Button''"
| "kind_name Generic = ''Widget''"

text \<open>The format string of \<open>dump_widget\<close>; \<open>CHR 0x27\<close> is the single quote.\<close>

definition dump_format :: string where
  "dump_format =
     ''%s #%d kind=%s title='' @ [CHR 0x27] @ ''%s'' @ [CHR 0x27] @
     '' label='' @ [CHR 0x27] @ ''%s'' @ [CHR 0x27] @ '' size=%dx%d parent=#%d''"

text \<open>
  \<open>dump_widget\<close> reads every field of \<open>w\<close> and, when \<open>w->parent\<close> is not null,
  the parent's id; the arguments are evaluated whether or not tracing is on.
\<close>

definition dump_widget :: "addr \<Rightarrow> string \<Rightarrow> qtstub \<Rightarrow> fault + qtstub" where
  "dump_widget w prefix s =
     (case deref s w of
        Inl e \<Rightarrow> Inl e
      | Inr x \<Rightarrow>
          (case (case parent x of
                   None \<Rightarrow> Inr 0
                 | Some p \<Rightarrow> (case deref s p of Inl e \<Rightarrow> Inl e | Inr y \<Rightarrow> Inr (id_w y))) of
             Inl e \<Rightarrow> Inl e
           | Inr pid \<Rightarrow>
               Inr (trace dump_format
                      [Arg_s prefix, Arg_d (id_w x), Arg_s (kind_name (kind x)), Arg_s (title x),
                       Arg_s (label x), Arg_d (width x), Arg_d (height x), Arg_d pid] s)))"

subsection \<open>The exported functions\<close>

definition qt_set_verbose :: "cint \<Rightarrow> qtstub \<Rightarrow> qtstub" where
  "qt_set_verbose on s = s\<lparr>g_verbose := (on \<noteq> 0)\<rparr>"

text \<open>
  \<open>qt_init\<close> ignores its arguments; \<open>v\<close> is what \<open>getenv("QT_STUB_VERBOSE")\<close>
  returns.
\<close>

definition qt_init :: "cstr \<Rightarrow> qtstub \<Rightarrow> qtstub" where
  "qt_init v s0 =
     (let s1 = (case v of None \<Rightarrow> s0 | Some x \<Rightarrow> s0\<lparr>g_verbose := (x \<noteq> ''0'')\<rparr>)
      in trace (''qt_init() '' @ dash @ '' mode console (aucune GUI r'' @ e_acute @ ''elle).'') [] s1)"

definition qt_window_new :: "cstr \<Rightarrow> cint \<Rightarrow> cint \<Rightarrow> qtstub \<Rightarrow> fault + (ptr \<times> qtstub)" where
  "qt_window_new title_arg w h s0 =
     (let (win, s1) = make_widget Window s0 in
      case store win (\<lambda>x. x\<lparr>title := (case title_arg of Some t \<Rightarrow> t | None \<Rightarrow> [])\<rparr>) s1 of
        Inl e \<Rightarrow> Inl e
      | Inr s2 \<Rightarrow>
      (case store win (\<lambda>x. x\<lparr>width := (if 0 <s w then w else 800)\<rparr>) s2 of
        Inl e \<Rightarrow> Inl e
      | Inr s3 \<Rightarrow>
      (case store win (\<lambda>x. x\<lparr>height := (if 0 <s h then h else 600)\<rparr>) s3 of
        Inl e \<Rightarrow> Inl e
      | Inr s4 \<Rightarrow>
      (case dump_widget win ''window_new'' s4 of
        Inl e \<Rightarrow> Inl e
      | Inr s5 \<Rightarrow> Inr (Some win, s5)))))"

definition qt_button_new :: "cstr \<Rightarrow> qtstub \<Rightarrow> fault + (ptr \<times> qtstub)" where
  "qt_button_new label_arg s0 =
     (let (btn, s1) = make_widget Button s0 in
      case store btn (\<lambda>x. x\<lparr>label := (case label_arg of Some l \<Rightarrow> l | None \<Rightarrow> ''Button'')\<rparr>) s1 of
        Inl e \<Rightarrow> Inl e
      | Inr s2 \<Rightarrow>
      (case dump_widget btn ''button_new'' s2 of
        Inl e \<Rightarrow> Inl e
      | Inr s3 \<Rightarrow> Inr (Some btn, s3)))"

definition qt_widget_set_parent :: "ptr \<Rightarrow> ptr \<Rightarrow> qtstub \<Rightarrow> fault + qtstub" where
  "qt_widget_set_parent child parent_arg s0 =
     (case child of
        None \<Rightarrow> Inr s0
      | Some c \<Rightarrow>
          (case store c (\<lambda>x. x\<lparr>parent := parent_arg\<rparr>) s0 of
             Inl e \<Rightarrow> Inl e
           | Inr s1 \<Rightarrow> dump_widget c ''set_parent'' s1))"

definition qt_widget_show :: "ptr \<Rightarrow> qtstub \<Rightarrow> fault + qtstub" where
  "qt_widget_show widget s0 =
     (case widget of
        None \<Rightarrow> Inr (trace (''widget_show(NULL) '' @ dash @ '' ignor'' @ e_acute @ ''.'') [] s0)
      | Some w \<Rightarrow> dump_widget w ''widget_show'' s0)"

definition qt_widget_set_title :: "ptr \<Rightarrow> cstr \<Rightarrow> qtstub \<Rightarrow> fault + qtstub" where
  "qt_widget_set_title widget title_arg s0 =
     (case widget of
        None \<Rightarrow> Inr s0
      | Some w \<Rightarrow>
          (case store w (\<lambda>x. x\<lparr>title := (case title_arg of Some t \<Rightarrow> t | None \<Rightarrow> [])\<rparr>) s0 of
             Inl e \<Rightarrow> Inl e
           | Inr s1 \<Rightarrow> dump_widget w ''set_title'' s1))"

definition qt_main_quit :: "qtstub \<Rightarrow> qtstub" where
  "qt_main_quit s0 =
     (let s1 = trace (''qt_main_quit() '' @ dash @ '' demande d'' @ apostrophe @ ''arr'' @
                      e_circumflex @ ''t.'') [] s0
      in s1\<lparr>g_running := False\<rparr>)"

subsection \<open>The simulated event loop\<close>

text \<open>
  \<open>qt_main\<close> polls \<open>g_running\<close> and sleeps 16 ms between two polls. Nothing in
  the loop clears the flag: only a call of \<open>qt_main_quit\<close> from another thread does,
  while the loop sleeps. The schedule \<open>quit_at\<close> says in which sleeps that happens
  (\<open>quit_at i\<close>: some thread calls \<open>qt_main_quit\<close> during sleep number \<open>i\<close>,
  counted from 0). \<open>main_loop quit_at i s\<close> is the \<open>while\<close> loop about to poll for the
  \<open>i\<close>-th time; it yields the number of sleeps done when the loop is left and the
  state then, and \<open>None\<close> when the loop is never left.
\<close>

partial_function (option) main_loop :: "(nat \<Rightarrow> bool) \<Rightarrow> nat \<Rightarrow> qtstub \<Rightarrow> (nat \<times> qtstub) option" where
  "main_loop quit_at i s =
     (if g_running s
      then main_loop quit_at (Suc i) (if quit_at i then qt_main_quit s else s)
      else Some (i, s))"

declare main_loop.simps [code]

text \<open>
  The result of \<open>qt_main\<close>: the returned \<open>int\<close>, the number of 16 ms sleeps the call
  took, and the state at return; \<open>None\<close> when the call never returns.
\<close>

definition qt_main :: "(nat \<Rightarrow> bool) \<Rightarrow> qtstub \<Rightarrow> (cint \<times> nat \<times> qtstub) option" where
  "qt_main quit_at s0 =
     (let s1 = trace (''qt_main() '' @ dash @ '' d'' @ e_acute @ ''but boucle simul'' @
                      e_acute @ ''e.'') [] s0;
          s2 = s1\<lparr>g_running := True\<rparr>
      in case main_loop quit_at 0 s2 of
           None \<Rightarrow> None
         | Some (n, s3) \<Rightarrow>
             Some (0, n, trace (''qt_main() '' @ dash @ '' fin boucle simul'' @ e_acute @ ''e.'') [] s3))"

subsection \<open>Pointers a call may be given, and sequences of creations\<close>

text \<open>A pointer the program may follow: null, or the address of a widget.\<close>

definition valid_ptr :: "qtstub \<Rightarrow> ptr \<Rightarrow> bool" where
  "valid_ptr s p = (case p of None \<Rightarrow> True | Some a \<Rightarrow> a < length (heap s))"

text \<open>
  A host program that only creates widgets is a list of calls of \<open>qt_window_new\<close> and
  \<open>qt_button_new\<close>; \<open>create_all\<close> runs them in order and collects the handles.
\<close>

datatype creation = Window_new cstr cint cint | Button_new cstr

fun create :: "creation \<Rightarrow> qtstub \<Rightarrow> fault + (ptr \<times> qtstub)" where
  "create (Window_new t w h) s = qt_window_new t w h s"
| "create (Button_new l) s = qt_button_new l s"

fun create_all :: "creation list \<Rightarrow> qtstub \<Rightarrow> fault + (ptr list \<times> qtstub)" where
  "create_all [] s = Inr ([], s)"
| "create_all (c # cs) s =
     (case create c s of
        Inl e \<Rightarrow> Inl e
      | Inr (h, s1) \<Rightarrow>
          (case create_all cs s1 of
             Inl e \<Rightarrow> Inl e
           | Inr (hs, s2) \<Rightarrow> Inr (h # hs, s2)))"

text \<open>
  A state with two widgets, used as a concrete input: a window at address 0 and a button
  at address 1 that has a title and the window as parent. It is the state after
  \<open>qt_set_verbose(0)\<close>, the two creations, \<open>qt_widget_set_parent\<close> and
  \<open>qt_widget_set_title\<close> (lemma \<open>two_widgets_reached\<close>).
\<close>

definition two_widgets :: qtstub where
  "two_widgets =
     \<lparr>g_running = False, g_verbose = False, next_id = 3, registry = [0, 1],
      heap =
        [\<lparr>kind = Window, title = ''App'', label = [], width = 640, height = 480,
          parent = None, id_w = 1\<rparr>,
         \<lparr>kind = Button, title = ''old'', label = ''OK'', width = 0, height = 0,
          parent = Some 0, id_w = 2\<rparr>],
      stderr = []\<rparr>"

section \<open>Symbolic execution of the operations\<close>

lemma make_widget_eq:
  "make_widget k s =
     (length (heap s),
      s\<lparr>heap := heap s @ [Widget_init\<lparr>kind := k, id_w := next_id s\<rparr>],
        next_id := next_id s + 1,
        registry := registry s @ [length (heap s)]\<rparr>)"
  by (simp add: make_widget_def Let_def)

lemma trace_fields [simp]:
  "heap (trace f a s) = heap s"
  "registry (trace f a s) = registry s"
  "next_id (trace f a s) = next_id s"
  "g_running (trace f a s) = g_running s"
  "g_verbose (trace f a s) = g_verbose s"
  by (simp_all add: trace_def)

lemma window_ok:
  "\<exists>s'. qt_window_new t w h s = Inr (Some (length (heap s)), s') \<and>
     heap s' = heap s @
       [\<lparr>kind = Window, title = (case t of Some x \<Rightarrow> x | None \<Rightarrow> []), label = [],
         width = (if 0 <s w then w else 800), height = (if 0 <s h then h else 600),
         parent = None, id_w = next_id s\<rparr>] \<and>
     next_id s' = next_id s + 1 \<and> registry s' = registry s @ [length (heap s)] \<and>
     g_running s' = g_running s \<and> g_verbose s' = g_verbose s"
  by (simp add: qt_window_new_def make_widget_eq store_def dump_widget_def deref_def
      Widget_init_def)

lemma button_ok:
  "\<exists>s'. qt_button_new l s = Inr (Some (length (heap s)), s') \<and>
     heap s' = heap s @
       [\<lparr>kind = Button, title = [], label = (case l of Some x \<Rightarrow> x | None \<Rightarrow> ''Button''),
         width = 0, height = 0, parent = None, id_w = next_id s\<rparr>] \<and>
     next_id s' = next_id s + 1 \<and> registry s' = registry s @ [length (heap s)] \<and>
     g_running s' = g_running s \<and> g_verbose s' = g_verbose s"
  by (simp add: qt_button_new_def make_widget_eq store_def dump_widget_def deref_def
      Widget_init_def)

lemma set_title_ok:
  "a < length (heap s) \<Longrightarrow> valid_ptr s (parent (heap s ! a)) \<Longrightarrow>
   \<exists>s'. qt_widget_set_title (Some a) t s = Inr s' \<and>
     heap s' = (heap s)[a := (heap s ! a)\<lparr>title := (case t of Some x \<Rightarrow> x | None \<Rightarrow> [])\<rparr>] \<and>
     next_id s' = next_id s \<and> registry s' = registry s \<and>
     g_running s' = g_running s \<and> g_verbose s' = g_verbose s"
  by (auto simp add: qt_widget_set_title_def store_def dump_widget_def deref_def valid_ptr_def
      split: option.splits)

lemma set_parent_ok:
  "c < length (heap s) \<Longrightarrow> valid_ptr s p \<Longrightarrow>
   \<exists>s'. qt_widget_set_parent (Some c) p s = Inr s' \<and>
     heap s' = (heap s)[c := (heap s ! c)\<lparr>parent := p\<rparr>] \<and>
     next_id s' = next_id s \<and> registry s' = registry s \<and>
     g_running s' = g_running s \<and> g_verbose s' = g_verbose s"
  by (auto simp add: qt_widget_set_parent_def store_def dump_widget_def deref_def valid_ptr_def
      split: option.splits)

lemma scenario_run:
  "\<exists>s1 s2 s3 s4.
     qt_window_new (Some ''App'') 640 480 s = Inr (Some (length (heap s)), s1) \<and>
     qt_button_new (Some ''OK'') s1 = Inr (Some (Suc (length (heap s))), s2) \<and>
     qt_widget_set_parent (Some (Suc (length (heap s)))) (Some (length (heap s))) s2 = Inr s3 \<and>
     qt_widget_set_title (Some (Suc (length (heap s)))) (Some ''Confirm'') s3 = Inr s4 \<and>
     heap s4 = heap s @
       [\<lparr>kind = Window, title = ''App'', label = [], width = 640, height = 480,
         parent = None, id_w = next_id s\<rparr>,
        \<lparr>kind = Button, title = ''Confirm'', label = ''OK'', width = 0, height = 0,
         parent = Some (length (heap s)), id_w = next_id s + 1\<rparr>]"
proof -
  let ?w = "length (heap s)"
  obtain s1 where w: "qt_window_new (Some ''App'') 640 480 s = Inr (Some ?w, s1)"
    and h1: "heap s1 = heap s @
       [\<lparr>kind = Window, title = ''App'', label = [], width = 640, height = 480,
         parent = None, id_w = next_id s\<rparr>]"
    and n1: "next_id s1 = next_id s + 1"
    using window_ok [of "Some ''App''" 640 480 s] by (auto simp add: word_sless_alt)
  have l1: "length (heap s1) = Suc ?w"
    by (simp add: h1)
  obtain s2 where b: "qt_button_new (Some ''OK'') s1 = Inr (Some (Suc ?w), s2)"
    and h2: "heap s2 = heap s1 @
       [\<lparr>kind = Button, title = [], label = ''OK'', width = 0, height = 0,
         parent = None, id_w = next_id s1\<rparr>]"
    using button_ok [of "Some ''OK''" s1] by (auto simp add: l1)
  have c2: "Suc ?w < length (heap s2)" and p2: "valid_ptr s2 (Some ?w)"
    by (simp_all add: h2 l1 valid_ptr_def)
  obtain s3 where sp: "qt_widget_set_parent (Some (Suc ?w)) (Some ?w) s2 = Inr s3"
    and h3: "heap s3 = (heap s2)[Suc ?w := (heap s2 ! Suc ?w)\<lparr>parent := Some ?w\<rparr>]"
    using set_parent_ok [OF c2 p2] by blast
  have c3: "Suc ?w < length (heap s3)"
    using c2 by (simp add: h3)
  have p3: "valid_ptr s3 (parent (heap s3 ! Suc ?w))"
    using c2 by (simp add: h3 valid_ptr_def)
  obtain s4 where st: "qt_widget_set_title (Some (Suc ?w)) (Some ''Confirm'') s3 = Inr s4"
    and h4: "heap s4 = (heap s3)[Suc ?w := (heap s3 ! Suc ?w)\<lparr>title := ''Confirm''\<rparr>]"
    using set_title_ok [OF c3 p3, of "Some ''Confirm''"] by auto
  have "heap s4 = heap s @
       [\<lparr>kind = Window, title = ''App'', label = [], width = 640, height = 480,
         parent = None, id_w = next_id s\<rparr>,
        \<lparr>kind = Button, title = ''Confirm'', label = ''OK'', width = 0, height = 0,
         parent = Some ?w, id_w = next_id s + 1\<rparr>]"
    by (simp add: h4 h3 h2 h1 n1 list_update_append nth_append)
  with w b sp st show ?thesis
    by blast
qed

lemma two_widgets_reached:
  "\<exists>s1 s2 s3.
     qt_window_new (Some ''App'') 640 480 (qt_set_verbose 0 qtstub_init) = Inr (Some 0, s1) \<and>
     qt_button_new (Some ''OK'') s1 = Inr (Some 1, s2) \<and>
     qt_widget_set_parent (Some 1) (Some 0) s2 = Inr s3 \<and>
     qt_widget_set_title (Some 1) (Some ''old'') s3 = Inr two_widgets"
  by (simp add: qt_window_new_def qt_button_new_def qt_widget_set_parent_def
      qt_widget_set_title_def make_widget_eq store_def dump_widget_def deref_def trace_def
      Widget_init_def qt_set_verbose_def qtstub_init_def two_widgets_def word_sless_alt)

subsection \<open>The event loop\<close>

lemma qt_main_quit_fields [simp]:
  "g_running (qt_main_quit s) = False"
  "heap (qt_main_quit s) = heap s"
  "registry (qt_main_quit s) = registry s"
  "next_id (qt_main_quit s) = next_id s"
  "g_verbose (qt_main_quit s) = g_verbose s"
  by (simp_all add: qt_main_quit_def Let_def)

lemma main_loop_wait:
  "g_running s \<Longrightarrow> \<forall>j<k. \<not> quit_at (i + j) \<Longrightarrow>
   main_loop quit_at i s = main_loop quit_at (i + k) s"
proof (induction k)
  case 0
  then show ?case by simp
next
  case (Suc k)
  then have "main_loop quit_at i s = main_loop quit_at (i + k) s"
    by simp
  also have "\<dots> = main_loop quit_at (Suc (i + k)) s"
    using Suc.prems by (subst main_loop.simps) simp
  finally show ?case by simp
qed

lemma main_loop_quit:
  assumes "g_running s" and "quit_at i"
  shows "main_loop quit_at i s = Some (Suc i, qt_main_quit s)"
proof -
  have "main_loop quit_at i s = main_loop quit_at (Suc i) (qt_main_quit s)"
    using assms by (subst main_loop.simps) simp
  also have "\<dots> = Some (Suc i, qt_main_quit s)"
    by (subst main_loop.simps) simp
  finally show ?thesis .
qed

lemma main_loop_returns_after_quit:
  assumes "main_loop quit_at i s = Some r"
  shows "g_running s \<longrightarrow> (\<exists>j. quit_at j)"
proof (rule main_loop.raw_induct [where P = "\<lambda>q i s r. g_running s \<longrightarrow> (\<exists>j. q j)", OF _ assms])
  fix f q n t y
  assume later: "\<And>q n t y. f q n t = Some y \<Longrightarrow> g_running t \<longrightarrow> (\<exists>j. q j)"
    and body: "(if g_running t then f q (Suc n) (if q n then qt_main_quit t else t)
                else Some (n, t)) = Some y"
  show "g_running t \<longrightarrow> (\<exists>j. q j)"
  proof
    assume run: "g_running t"
    show "\<exists>j. q j"
    proof (cases "q n")
      case True
      then show ?thesis by blast
    next
      case False
      with body run have "f q (Suc n) t = Some y"
        by simp
      with later run show ?thesis
        by blast
    qed
  qed
qed

lemma main_loop_blocks:
  assumes "g_running s" and "\<forall>j. \<not> quit_at j"
  shows "main_loop quit_at i s = None"
proof (cases "main_loop quit_at i s")
  case None
  then show ?thesis .
next
  case (Some r)
  then have "\<exists>j. quit_at j"
    using assms(1) main_loop_returns_after_quit by blast
  with assms(2) show ?thesis by blast
qed

subsection \<open>Sequences of creations\<close>

lemma sint_id_small:
  "n < 2 ^ 31 \<Longrightarrow> sint (word_of_nat n :: cint) = int n"
  by (simp add: signed_of_nat signed_take_bit_int_eq_self)

lemma create_ok:
  "\<exists>s' w. create c s = Inr (Some (length (heap s)), s') \<and> heap s' = heap s @ [w] \<and>
     id_w w = next_id s \<and> next_id s' = next_id s + 1 \<and>
     registry s' = registry s @ [length (heap s)]"
proof (cases c)
  case (Window_new t w h)
  then show ?thesis
    using window_ok [of t w h s] by auto
next
  case (Button_new l)
  then show ?thesis
    using button_ok [of l s] by auto
qed

lemma upt_first: "[n ..< Suc (n + k)] = n # [Suc n ..< Suc (n + k)]"
  by (simp add: upt_conv_Cons del: upt_Suc)

lemma create_all_ok:
  "\<exists>s' ws. create_all cs s =
       Inr (map Some [length (heap s) ..< length (heap s) + length cs], s') \<and>
     heap s' = heap s @ ws \<and> length ws = length cs \<and>
     (\<forall>i<length cs. id_w (ws ! i) = next_id s + of_nat i) \<and>
     next_id s' = next_id s + of_nat (length cs) \<and>
     registry s' = registry s @ [length (heap s) ..< length (heap s) + length cs]"
proof (induction cs arbitrary: s)
  case Nil
  then show ?case by simp
next
  case (Cons c cs)
  obtain s1 w where first: "create c s = Inr (Some (length (heap s)), s1)"
    and h1: "heap s1 = heap s @ [w]" and i1: "id_w w = next_id s"
    and n1: "next_id s1 = next_id s + 1"
    and r1: "registry s1 = registry s @ [length (heap s)]"
    using create_ok [of c s] by blast
  have l1: "length (heap s1) = Suc (length (heap s))"
    by (simp add: h1)
  obtain s2 ws where rest: "create_all cs s1 =
       Inr (map Some [length (heap s1) ..< length (heap s1) + length cs], s2)"
    and h2: "heap s2 = heap s1 @ ws" and l2: "length ws = length cs"
    and i2: "\<forall>i<length cs. id_w (ws ! i) = next_id s1 + of_nat i"
    and n2: "next_id s2 = next_id s1 + of_nat (length cs)"
    and r2: "registry s2 = registry s1 @ [length (heap s1) ..< length (heap s1) + length cs]"
    using Cons.IH [of s1] by blast
  have "create_all (c # cs) s =
      Inr (map Some [length (heap s) ..< length (heap s) + length (c # cs)], s2)"
    by (simp add: first rest l1 upt_first del: upt_Suc)
  moreover have "heap s2 = heap s @ (w # ws)"
    by (simp add: h2 h1)
  moreover have "length (w # ws) = length (c # cs)"
    by (simp add: l2)
  moreover have "\<forall>i<length (c # cs). id_w ((w # ws) ! i) = next_id s + of_nat i"
  proof (intro allI impI)
    fix i
    assume "i < length (c # cs)"
    then show "id_w ((w # ws) ! i) = next_id s + of_nat i"
      using i1 i2 n1 by (cases i) simp_all
  qed
  moreover have "next_id s2 = next_id s + of_nat (length (c # cs))"
    by (simp add: n2 n1)
  moreover have "registry s2 =
      registry s @ [length (heap s) ..< length (heap s) + length (c # cs)]"
    by (simp add: r2 r1 l1 upt_first del: upt_Suc)
  ultimately show ?case
    by blast
qed

lemma create_all_ids:
  "\<exists>s'. create_all cs qtstub_init = Inr (map Some [0 ..< length cs], s') \<and>
     registry s' = [0 ..< length cs] \<and> length (heap s') = length cs \<and>
     (\<forall>i<length cs. id_w (heap s' ! i) = of_nat (Suc i)) \<and>
     next_id s' = of_nat (Suc (length cs))"
proof -
  obtain s' ws where run: "create_all cs qtstub_init =
       Inr (map Some [length (heap qtstub_init) ..< length (heap qtstub_init) + length cs], s')"
    and cells: "heap s' = heap qtstub_init @ ws" and len: "length ws = length cs"
    and ids: "\<forall>i<length cs. id_w (ws ! i) = next_id qtstub_init + of_nat i"
    and counter: "next_id s' = next_id qtstub_init + of_nat (length cs)"
    and reg: "registry s' =
       registry qtstub_init @ [length (heap qtstub_init) ..< length (heap qtstub_init) + length cs]"
    using create_all_ok [of cs qtstub_init] by blast
  have "create_all cs qtstub_init = Inr (map Some [0 ..< length cs], s')"
    using run by (simp add: qtstub_init_def)
  moreover have "registry s' = [0 ..< length cs]"
    using reg by (simp add: qtstub_init_def)
  moreover have "length (heap s') = length cs"
    using cells len by (simp add: qtstub_init_def)
  moreover have "\<forall>i<length cs. id_w (heap s' ! i) = of_nat (Suc i)"
    using cells ids by (simp add: qtstub_init_def)
  moreover have "next_id s' = of_nat (Suc (length cs))"
    using counter by (simp add: qtstub_init_def)
  ultimately show ?thesis
    by blast
qed

lemma distinct_ids:
  fixes f :: "nat \<Rightarrow> cint"
  assumes "map (\<lambda>a. sint (f a)) xs = map int [1 ..< Suc n]"
  shows "distinct (map f xs)"
proof -
  have "distinct (map int [1 ..< Suc n])"
    by (simp add: distinct_map del: upt_Suc)
  then have "distinct (map (sint \<circ> f) xs)"
    using assms by (simp add: comp_def)
  then have "distinct xs" and "inj_on (sint \<circ> f) (set xs)"
    by (simp_all add: distinct_map)
  then have "distinct xs" and "inj_on f (set xs)"
    by (simp_all add: inj_on_imageI2)
  then show ?thesis
    by (simp add: distinct_map)
qed

section \<open>The claims\<close>

text \<open>
  Claim C1, as the code has it. For every sequence of N calls of \<open>qt_window_new\<close> and
  \<open>qt_button_new\<close>, N at most \<open>2^31 - 2\<close>, run one after the other from program
  start, no call faults, the handles returned are the registry's entries in creation
  order, and the ids of these widgets, read in that order, are exactly 1, 2, ..., N:
  every id is issued once, to one widget. The counter starts at 1 and its value, read
  as an \<open>int\<close>, is \<open>N + 1\<close> after the N creations: it grows by one with each
  creation and is above every id issued.
\<close>

theorem ids_in_creation_order:
  assumes "length cs < 2 ^ 31 - 1"
  shows "sint (next_id qtstub_init) = 1 \<and>
         (\<exists>hs s'. create_all cs qtstub_init = Inr (hs, s') \<and>
           hs = map Some (registry s') \<and>
           registry s' = [0 ..< length cs] \<and>
           length (heap s') = length cs \<and>
           map (\<lambda>a. sint (id_w (heap s' ! a))) (registry s') = map int [1 ..< Suc (length cs)] \<and>
           distinct (map (\<lambda>a. id_w (heap s' ! a)) (registry s')) \<and>
           sint (next_id s') = int (length cs) + 1)"
proof -
  obtain s' where run: "create_all cs qtstub_init = Inr (map Some [0 ..< length cs], s')"
    and reg: "registry s' = [0 ..< length cs]" and len: "length (heap s') = length cs"
    and ids: "\<forall>i<length cs. id_w (heap s' ! i) = of_nat (Suc i)"
    and counter: "next_id s' = of_nat (Suc (length cs))"
    using create_all_ids [of cs] by blast
  have "map (\<lambda>a. sint (id_w (heap s' ! a))) [0 ..< length cs] = map int [1 ..< Suc (length cs)]"
  proof (rule nth_equalityI)
    show "length (map (\<lambda>a. sint (id_w (heap s' ! a))) [0 ..< length cs]) =
        length (map int [1 ..< Suc (length cs)])"
      by (simp del: upt_Suc)
  next
    fix i
    assume "i < length (map (\<lambda>a. sint (id_w (heap s' ! a))) [0 ..< length cs])"
    then have i: "i < length cs"
      by simp
    then have "id_w (heap s' ! i) = of_nat (Suc i)"
      using ids by simp
    moreover have "Suc i < 2 ^ 31"
      using i assms by simp
    ultimately have "sint (id_w (heap s' ! i)) = int (Suc i)"
      using sint_id_small [of "Suc i"] by simp
    then show "map (\<lambda>a. sint (id_w (heap s' ! a))) [0 ..< length cs] ! i =
        map int [1 ..< Suc (length cs)] ! i"
      using i by (simp del: upt_Suc)
  qed
  then have ids_eq: "map (\<lambda>a. sint (id_w (heap s' ! a))) (registry s') =
      map int [1 ..< Suc (length cs)]"
    by (simp only: reg)
  then have unique: "distinct (map (\<lambda>a. id_w (heap s' ! a)) (registry s'))"
    by (rule distinct_ids)
  have "Suc (length cs) < 2 ^ 31"
    using assms by simp
  then have "sint (next_id s') = int (Suc (length cs))"
    unfolding counter by (rule sint_id_small)
  then have signed: "sint (next_id s') = int (length cs) + 1"
    by simp
  have handles: "create_all cs qtstub_init = Inr (map Some (registry s'), s')"
    using run by (simp only: reg)
  have start: "sint (next_id qtstub_init) = 1"
    by (simp add: qtstub_init_def)
  from handles ids_eq unique signed reg len start show ?thesis
    by blast
qed

text \<open>A window and a button: handles 0 and 1, ids 1 and 2, counter 3.\<close>

theorem ids_in_creation_order_witness:
  "\<exists>hs s'. create_all [Window_new (Some ''App'') 640 480, Button_new (Some ''OK'')] qtstub_init =
             Inr (hs, s') \<and>
           hs = [Some 0, Some 1] \<and> registry s' = [0, 1] \<and> length (heap s') = 2 \<and>
           map (\<lambda>a. sint (id_w (heap s' ! a))) (registry s') = [1, 2] \<and>
           sint (next_id s') = 3"
proof -
  have small: "length [Window_new (Some ''App'') 640 480, Button_new (Some ''OK'')] < 2 ^ 31 - 1"
    by simp
  have upt2: "[0 ..< length [Window_new (Some ''App'') 640 480, Button_new (Some ''OK'')]] = [0, 1]"
    "map int [1 ..< Suc (length [Window_new (Some ''App'') 640 480, Button_new (Some ''OK'')])] = [1, 2]"
    by (simp_all add: upt_rec)
  from ids_in_creation_order [OF small] show ?thesis
    unfolding upt2 by auto
qed

text \<open>
  Claim C1 as stated, for every N, fails from \<open>N = 2^31 - 1\<close> on. The creation number
  \<open>2^31 - 1\<close> issues the id \<open>INT_MAX\<close> and its \<open>next_id++\<close> overflows: the counter
  is then \<open>-2147483648\<close>, below the id just issued, so it has not increased. One
  creation more, and the widget created last gets the id \<open>-2147483648\<close>: the ids
  are not 1, ..., N.
\<close>

theorem counter_wraps_at_int_max:
  "(\<exists>hs s'. create_all (replicate (2 ^ 31 - 1) (Button_new None)) qtstub_init = Inr (hs, s') \<and>
           sint (id_w (heap s' ! (2 ^ 31 - 2))) = 2147483647 \<and>
           sint (next_id s') = - 2147483648) \<and>
   (\<exists>hs s'. create_all (replicate (2 ^ 31) (Button_new None)) qtstub_init = Inr (hs, s') \<and>
           length (registry s') = 2 ^ 31 \<and>
           sint (id_w (heap s' ! (2 ^ 31 - 1))) = - 2147483648 \<and>
           map (\<lambda>a. sint (id_w (heap s' ! a))) (registry s') \<noteq> map int [1 ..< Suc (2 ^ 31)])"
proof
  define m :: nat where "m = 2 ^ 31 - 1"
  define ds where "ds = replicate m (Button_new None)"
  have m: "length ds = m"
    by (simp add: ds_def)
  obtain t where run: "create_all ds qtstub_init = Inr (map Some [0 ..< m], t)"
    and ids: "\<forall>i<m. id_w (heap t ! i) = of_nat (Suc i)"
    and counter: "next_id t = of_nat (Suc m)"
    using create_all_ids [of ds] unfolding m by blast
  have pos: "m - 1 < m" and suc: "Suc (m - 1) = m"
    by (simp_all add: m_def)
  have "id_w (heap t ! (m - 1)) = (of_nat m :: cint)"
    using ids pos suc by auto
  also have "(of_nat m :: cint) = 2147483647"
    by (simp add: m_def)
  finally have last_id: "sint (id_w (heap t ! (m - 1))) = 2147483647"
    by simp
  have "(of_nat (Suc m) :: cint) = 2147483648"
    by (simp add: m_def)
  then have wrapped: "sint (next_id t) = - 2147483648"
    by (simp add: counter)
  have "m - 1 = 2 ^ 31 - 2"
    by (simp add: m_def)
  with run last_id wrapped
  show "\<exists>hs s'. create_all (replicate (2 ^ 31 - 1) (Button_new None)) qtstub_init = Inr (hs, s') \<and>
           sint (id_w (heap s' ! (2 ^ 31 - 2))) = 2147483647 \<and>
           sint (next_id s') = - 2147483648"
    unfolding ds_def m_def by auto
next
  define n :: nat where "n = 2 ^ 31"
  define cs where "cs = replicate n (Button_new None)"
  have n: "length cs = n"
    by (simp add: cs_def)
  obtain s' where run: "create_all cs qtstub_init = Inr (map Some [0 ..< n], s')"
    and reg: "registry s' = [0 ..< n]"
    and ids: "\<forall>i<n. id_w (heap s' ! i) = of_nat (Suc i)"
    using create_all_ids [of cs] unfolding n by blast
  have pos: "n - 1 < n" and suc: "Suc (n - 1) = n"
    by (simp_all add: n_def)
  have "id_w (heap s' ! (n - 1)) = (of_nat n :: cint)"
    using ids pos suc by auto
  also have "(of_nat n :: cint) = 2147483648"
    by (simp add: n_def)
  finally have last_id: "sint (id_w (heap s' ! (n - 1))) = - 2147483648"
    by simp
  have differ: "map (\<lambda>a. sint (id_w (heap s' ! a))) (registry s') \<noteq> map int [1 ..< Suc n]"
  proof
    assume "map (\<lambda>a. sint (id_w (heap s' ! a))) (registry s') = map int [1 ..< Suc n]"
    then have "map (\<lambda>a. sint (id_w (heap s' ! a))) [0 ..< n] ! (n - 1) =
        map int [1 ..< Suc n] ! (n - 1)"
      by (simp add: reg)
    then have "sint (id_w (heap s' ! (n - 1))) = int (Suc (n - 1))"
      using pos by (simp del: upt_Suc)
    with last_id show False
      by (simp add: suc n_def)
  qed
  have "length (registry s') = n"
    by (simp add: reg)
  with run last_id differ
  show "\<exists>hs s'. create_all (replicate (2 ^ 31) (Button_new None)) qtstub_init = Inr (hs, s') \<and>
           length (registry s') = 2 ^ 31 \<and>
           sint (id_w (heap s' ! (2 ^ 31 - 1))) = - 2147483648 \<and>
           map (\<lambda>a. sint (id_w (heap s' ! a))) (registry s') \<noteq> map int [1 ..< Suc (2 ^ 31)]"
    unfolding cs_def n_def by blast
qed

text \<open>
  Claim C2. For every title and every pair of ints \<open>w\<close>, \<open>h\<close>, in every state,
  \<open>qt_window_new\<close> returns without fault a non-null handle; the handle is the address
  of a widget of kind Window whose width is \<open>w\<close> when \<open>w > 0\<close> and 800 otherwise, and
  whose height is \<open>h\<close> when \<open>h > 0\<close> and 600 otherwise.
\<close>

theorem qt_window_new_size:
  "\<exists>a s'. qt_window_new t w h s = Inr (Some a, s') \<and> a < length (heap s') \<and>
     kind (heap s' ! a) = Window \<and>
     width (heap s' ! a) = (if 0 < sint w then w else 800) \<and>
     height (heap s' ! a) = (if 0 < sint h then h else 600)"
proof -
  obtain s' where new: "qt_window_new t w h s = Inr (Some (length (heap s)), s')"
    and cells: "heap s' = heap s @
       [\<lparr>kind = Window, title = (case t of Some x \<Rightarrow> x | None \<Rightarrow> []), label = [],
         width = (if 0 <s w then w else 800), height = (if 0 <s h then h else 600),
         parent = None, id_w = next_id s\<rparr>]"
    using window_ok [of t w h s] by blast
  have "length (heap s) < length (heap s')"
    by (simp add: cells)
  moreover have "kind (heap s' ! length (heap s)) = Window"
    by (simp add: cells)
  moreover have "width (heap s' ! length (heap s)) = (if 0 < sint w then w else 800)"
    by (simp add: cells word_sless_alt)
  moreover have "height (heap s' ! length (heap s)) = (if 0 < sint h then h else 600)"
    by (simp add: cells word_sless_alt)
  ultimately show ?thesis
    using new by blast
qed

text \<open>
  Claim C3, as the code has it. In every state \<open>qt_button_new\<close> returns without fault
  a non-null handle to a widget of kind Button. When the label argument is null the
  widget's label is the placeholder \<open>Button\<close>; for every non-null argument, the empty
  string included, the label is the argument.
\<close>

theorem qt_button_new_label:
  "\<exists>a s'. qt_button_new l s = Inr (Some a, s') \<and> a < length (heap s') \<and>
     kind (heap s' ! a) = Button \<and>
     label (heap s' ! a) = (case l of None \<Rightarrow> ''Button'' | Some x \<Rightarrow> x)"
proof -
  obtain s' where new: "qt_button_new l s = Inr (Some (length (heap s)), s')"
    and cells: "heap s' = heap s @
       [\<lparr>kind = Button, title = [], label = (case l of Some x \<Rightarrow> x | None \<Rightarrow> ''Button''),
         width = 0, height = 0, parent = None, id_w = next_id s\<rparr>]"
    using button_ok [of l s] by blast
  have "length (heap s) < length (heap s')"
    by (simp add: cells)
  moreover have "kind (heap s' ! length (heap s)) = Button"
    by (simp add: cells)
  moreover have "label (heap s' ! length (heap s)) = (case l of None \<Rightarrow> ''Button'' | Some x \<Rightarrow> x)"
    by (simp add: cells split: option.splits)
  ultimately show ?thesis
    using new by blast
qed

text \<open>
  Claim C3 as stated fails for the empty string: \<open>label ? label : "Button"\<close> tests the
  pointer only, so the button created with the label \<open>""\<close> in the initial state has
  an empty label, not the placeholder.
\<close>

theorem qt_button_new_empty_label:
  "\<not> (\<exists>a s'. qt_button_new (Some []) qtstub_init = Inr (Some a, s') \<and>
        label (heap s' ! a) = ''Button'')"
proof
  assume "\<exists>a s'. qt_button_new (Some []) qtstub_init = Inr (Some a, s') \<and>
        label (heap s' ! a) = ''Button''"
  then obtain a s' where new: "qt_button_new (Some []) qtstub_init = Inr (Some a, s')"
    and placeholder: "label (heap s' ! a) = ''Button''"
    by blast
  obtain s2 where new2: "qt_button_new (Some []) qtstub_init = Inr (Some (length (heap qtstub_init)), s2)"
    and cells: "heap s2 = heap qtstub_init @
       [\<lparr>kind = Button, title = [], label = (case Some [] of Some x \<Rightarrow> x | None \<Rightarrow> ''Button''),
         width = 0, height = 0, parent = None, id_w = next_id qtstub_init\<rparr>]"
    using button_ok [of "Some []" qtstub_init] by blast
  from new new2 have "a = length (heap qtstub_init)" and "s' = s2"
    by simp_all
  then have "label (heap s' ! a) = []"
    by (simp add: cells)
  with placeholder show False
    by simp
qed

text \<open>
  Claim C4. From every state, the sequence: create window W titled \<open>App\<close> sized 640
  by 480, create button B labelled \<open>OK\<close>, \<open>qt_widget_set_parent(B, W)\<close>,
  \<open>qt_widget_set_title(B, "Confirm")\<close> runs without fault and leaves B, a widget of
  kind Button, with \<open>Confirm\<close> in its title field (the text that, by the data model's
  convention, is reused as button text) and with W as parent. In general
  \<open>qt_widget_set_title\<close> with a text, on a handle that is the address of a widget of
  any kind, Button included, returns without fault and stores the text in the title
  field; the other widgets, the registry, the counter and the loop flag are unchanged.
\<close>

theorem scenario_title_and_parent:
  "(\<exists>w b s1 s2 s3 s4.
      qt_window_new (Some ''App'') 640 480 s = Inr (Some w, s1) \<and>
      qt_button_new (Some ''OK'') s1 = Inr (Some b, s2) \<and>
      qt_widget_set_parent (Some b) (Some w) s2 = Inr s3 \<and>
      qt_widget_set_title (Some b) (Some ''Confirm'') s3 = Inr s4 \<and>
      kind (heap s4 ! w) = Window \<and> kind (heap s4 ! b) = Button \<and>
      title (heap s4 ! b) = ''Confirm'' \<and> parent (heap s4 ! b) = Some w) \<and>
   (a < length (heap s) \<and> valid_ptr s (parent (heap s ! a)) \<longrightarrow>
      (\<exists>s'. qt_widget_set_title (Some a) (Some text) s = Inr s' \<and>
            title (heap s' ! a) = text \<and>
            heap s' = (heap s)[a := (heap s ! a)\<lparr>title := text\<rparr>] \<and>
            registry s' = registry s \<and> next_id s' = next_id s \<and>
            g_running s' = g_running s))"
proof (intro conjI impI)
  let ?w = "length (heap s)"
  obtain s1 s2 s3 s4 where
    calls: "qt_window_new (Some ''App'') 640 480 s = Inr (Some ?w, s1)"
      "qt_button_new (Some ''OK'') s1 = Inr (Some (Suc ?w), s2)"
      "qt_widget_set_parent (Some (Suc ?w)) (Some ?w) s2 = Inr s3"
      "qt_widget_set_title (Some (Suc ?w)) (Some ''Confirm'') s3 = Inr s4"
    and cells: "heap s4 = heap s @
       [\<lparr>kind = Window, title = ''App'', label = [], width = 640, height = 480,
         parent = None, id_w = next_id s\<rparr>,
        \<lparr>kind = Button, title = ''Confirm'', label = ''OK'', width = 0, height = 0,
         parent = Some ?w, id_w = next_id s + 1\<rparr>]"
    using scenario_run [of s] by blast
  have "kind (heap s4 ! ?w) = Window" "kind (heap s4 ! Suc ?w) = Button"
    "title (heap s4 ! Suc ?w) = ''Confirm''" "parent (heap s4 ! Suc ?w) = Some ?w"
    by (simp_all add: cells nth_append)
  with calls show "\<exists>w b s1 s2 s3 s4.
      qt_window_new (Some ''App'') 640 480 s = Inr (Some w, s1) \<and>
      qt_button_new (Some ''OK'') s1 = Inr (Some b, s2) \<and>
      qt_widget_set_parent (Some b) (Some w) s2 = Inr s3 \<and>
      qt_widget_set_title (Some b) (Some ''Confirm'') s3 = Inr s4 \<and>
      kind (heap s4 ! w) = Window \<and> kind (heap s4 ! b) = Button \<and>
      title (heap s4 ! b) = ''Confirm'' \<and> parent (heap s4 ! b) = Some w"
    by blast
next
  assume "a < length (heap s) \<and> valid_ptr s (parent (heap s ! a))"
  then have a: "a < length (heap s)" and p: "valid_ptr s (parent (heap s ! a))"
    by simp_all
  obtain s' where call: "qt_widget_set_title (Some a) (Some text) s = Inr s'"
    and cells: "heap s' = (heap s)[a := (heap s ! a)\<lparr>title := text\<rparr>]"
    and rest: "registry s' = registry s" "next_id s' = next_id s" "g_running s' = g_running s"
    using set_title_ok [OF a p, of "Some text"] by auto
  have "title (heap s' ! a) = text"
    using a by (simp add: cells)
  with call cells rest show "\<exists>s'. qt_widget_set_title (Some a) (Some text) s = Inr s' \<and>
            title (heap s' ! a) = text \<and>
            heap s' = (heap s)[a := (heap s ! a)\<lparr>title := text\<rparr>] \<and>
            registry s' = registry s \<and> next_id s' = next_id s \<and>
            g_running s' = g_running s"
    by blast
qed

text \<open>The button of \<open>two_widgets\<close>, titled \<open>old\<close>, retitled.\<close>

theorem scenario_title_and_parent_witness:
  "1 < length (heap two_widgets) \<and> valid_ptr two_widgets (parent (heap two_widgets ! 1)) \<and>
   kind (heap two_widgets ! 1) = Button \<and> title (heap two_widgets ! 1) = ''old'' \<and>
   (\<exists>s'. qt_widget_set_title (Some 1) (Some ''Confirm'') two_widgets = Inr s' \<and>
         title (heap s' ! 1) = ''Confirm'' \<and>
         heap s' = (heap two_widgets)[1 := (heap two_widgets ! 1)\<lparr>title := ''Confirm''\<rparr>] \<and>
         registry s' = registry two_widgets \<and> next_id s' = next_id two_widgets \<and>
         g_running s' = g_running two_widgets)"
proof -
  have a: "1 < length (heap two_widgets)"
    by (simp add: two_widgets_def)
  have p: "valid_ptr two_widgets (parent (heap two_widgets ! 1))"
    by (simp add: two_widgets_def valid_ptr_def)
  have b: "kind (heap two_widgets ! 1) = Button" "title (heap two_widgets ! 1) = ''old''"
    by (simp_all add: two_widgets_def)
  from scenario_title_and_parent [of two_widgets 1 "''Confirm''"] a p
  have "\<exists>s'. qt_widget_set_title (Some 1) (Some ''Confirm'') two_widgets = Inr s' \<and>
         title (heap s' ! 1) = ''Confirm'' \<and>
         heap s' = (heap two_widgets)[1 := (heap two_widgets ! 1)\<lparr>title := ''Confirm''\<rparr>] \<and>
         registry s' = registry two_widgets \<and> next_id s' = next_id two_widgets \<and>
         g_running s' = g_running two_widgets"
    by blast
  with a p b show ?thesis
    by blast
qed

text \<open>
  Claim C5. For every child that is the address of a widget and every parent argument
  that is null or the address of a widget (of any kind, the child itself included),
  \<open>qt_widget_set_parent\<close> returns without fault and the child's parent field is the
  argument; no other field of any widget, the registry and the counter change. With a
  null parent the child is detached.
\<close>

theorem qt_widget_set_parent_unconditional:
  assumes "c < length (heap s)" and "valid_ptr s p"
  shows "\<exists>s'. qt_widget_set_parent (Some c) p s = Inr s' \<and> parent (heap s' ! c) = p \<and>
           heap s' = (heap s)[c := (heap s ! c)\<lparr>parent := p\<rparr>] \<and>
           registry s' = registry s \<and> next_id s' = next_id s"
proof -
  obtain s' where call: "qt_widget_set_parent (Some c) p s = Inr s'"
    and cells: "heap s' = (heap s)[c := (heap s ! c)\<lparr>parent := p\<rparr>]"
    and rest: "registry s' = registry s" "next_id s' = next_id s"
    using set_parent_ok [OF assms] by blast
  have "parent (heap s' ! c) = p"
    using assms(1) by (simp add: cells)
  with call cells rest show ?thesis
    by blast
qed

text \<open>The button of \<open>two_widgets\<close>, whose parent is the window, detached.\<close>

theorem qt_widget_set_parent_unconditional_witness:
  "1 < length (heap two_widgets) \<and> valid_ptr two_widgets None \<and>
   parent (heap two_widgets ! 1) = Some 0 \<and>
   (\<exists>s'. qt_widget_set_parent (Some 1) None two_widgets = Inr s' \<and> parent (heap s' ! 1) = None \<and>
           heap s' = (heap two_widgets)[1 := (heap two_widgets ! 1)\<lparr>parent := None\<rparr>] \<and>
           registry s' = registry two_widgets \<and> next_id s' = next_id two_widgets)"
proof -
  have c: "1 < length (heap two_widgets)"
    by (simp add: two_widgets_def)
  have p: "valid_ptr two_widgets None"
    by (simp add: valid_ptr_def)
  have "parent (heap two_widgets ! 1) = Some 0"
    by (simp add: two_widgets_def)
  with c p qt_widget_set_parent_unconditional [OF c p] show ?thesis
    by blast
qed

text \<open>
  Claim C6. In every state, \<open>qt_widget_show\<close>, \<open>qt_widget_set_title\<close> (with any text)
  and \<open>qt_widget_set_parent\<close> (with any parent) called with a null handle return
  without fault and leave the registry, the identity counter and every widget as they
  were. (\<open>qt_widget_show(NULL)\<close> writes a line to stderr when tracing is on; the two
  others leave the whole state unchanged.)
\<close>

theorem null_handle_no_mutation:
  "(\<exists>s'. qt_widget_show None s = Inr s' \<and> registry s' = registry s \<and>
          next_id s' = next_id s \<and> heap s' = heap s \<and> g_running s' = g_running s \<and>
          g_verbose s' = g_verbose s) \<and>
   qt_widget_set_title None t s = Inr s \<and>
   qt_widget_set_parent None p s = Inr s"
  by (simp add: qt_widget_show_def qt_widget_set_title_def qt_widget_set_parent_def)

text \<open>
  Claim C7. When the loop is idle, \<open>qt_main_quit\<close> leaves it idle (the call changes
  nothing but stderr), and so does a second call. A call of \<open>qt_main\<close> after that
  sets the flag and polls: if another thread calls \<open>qt_main_quit\<close> for the first time
  during sleep number \<open>k\<close>, \<open>qt_main\<close> returns 0 after exactly \<open>k + 1\<close> sleeps,
  with the loop idle again and the widgets untouched; if no thread ever calls
  \<open>qt_main_quit\<close>, \<open>qt_main\<close> never returns.
\<close>

theorem main_quit_when_idle:
  assumes idle: "\<not> g_running s"
    and before: "\<forall>i<k. \<not> quit_at i" and matching: "quit_at k"
  shows "\<not> g_running (qt_main_quit s) \<and>
         (qt_main_quit s)\<lparr>stderr := stderr s\<rparr> = s \<and>
         (qt_main_quit (qt_main_quit s))\<lparr>stderr := stderr s\<rparr> = s \<and>
         (\<exists>s'. qt_main quit_at (qt_main_quit s) = Some (0, Suc k, s') \<and> \<not> g_running s' \<and>
               heap s' = heap s \<and> registry s' = registry s \<and> next_id s' = next_id s) \<and>
         qt_main (\<lambda>i. False) (qt_main_quit s) = None"
proof -
  let ?enter = "\<lambda>s0. (trace (''qt_main() '' @ dash @ '' d'' @ e_acute @ ''but boucle simul'' @
                      e_acute @ ''e.'') [] s0)\<lparr>g_running := True\<rparr>"
  have still: "(qt_main_quit s)\<lparr>stderr := stderr s\<rparr> = s"
    using idle by (simp add: qt_main_quit_def trace_def Let_def)
  have twice: "(qt_main_quit (qt_main_quit s))\<lparr>stderr := stderr s\<rparr> = s"
    using idle by (simp add: qt_main_quit_def trace_def Let_def)
  have run: "g_running (?enter (qt_main_quit s))"
    by simp
  have "main_loop quit_at 0 (?enter (qt_main_quit s)) =
          main_loop quit_at (0 + k) (?enter (qt_main_quit s))"
    using run before by (intro main_loop_wait) simp_all
  also have "\<dots> = Some (Suc k, qt_main_quit (?enter (qt_main_quit s)))"
    using run matching by (simp add: main_loop_quit)
  finally have "\<exists>s'. qt_main quit_at (qt_main_quit s) = Some (0, Suc k, s') \<and> \<not> g_running s' \<and>
               heap s' = heap s \<and> registry s' = registry s \<and> next_id s' = next_id s"
    by (simp add: qt_main_def Let_def)
  moreover have "main_loop (\<lambda>i. False) 0 (?enter (qt_main_quit s)) = None"
    using run by (intro main_loop_blocks) simp_all
  then have "qt_main (\<lambda>i. False) (qt_main_quit s) = None"
    by (simp add: qt_main_def Let_def)
  ultimately show ?thesis
    using still twice by simp
qed

text \<open>From program start, with the quit arriving during sleep number 3.\<close>

theorem main_quit_when_idle_witness:
  "\<not> g_running qtstub_init \<and> \<not> g_running (qt_main_quit qtstub_init) \<and>
   (\<exists>s'. qt_main (\<lambda>i. i = 3) (qt_main_quit qtstub_init) = Some (0, 4, s') \<and> \<not> g_running s') \<and>
   qt_main (\<lambda>i. False) (qt_main_quit qtstub_init) = None"
proof -
  have idle: "\<not> g_running qtstub_init"
    by (simp add: qtstub_init_def)
  have before: "\<forall>i<3. \<not> (\<lambda>i. i = (3::nat)) i"
    by simp
  have matching: "(\<lambda>i. i = (3::nat)) 3"
    by simp
  from main_quit_when_idle [OF idle before matching] idle show ?thesis
    by auto
qed

text \<open>
  Claim C8. For every kind, \<open>make_widget\<close> returns the address of a new widget (the
  widgets that existed are unchanged) whose kind is the given kind and whose id is the
  value of the identity counter, which is then advanced by one; its title and label are
  empty, its width and height are 0 and its parent is null. The widget is appended to
  the registry.
\<close>

theorem make_widget_zeroed:
  "case make_widget k s of (a, s') \<Rightarrow>
     a = length (heap s) \<and> length (heap s') = Suc (length (heap s)) \<and>
     take (length (heap s)) (heap s') = heap s \<and>
     heap s' ! a = \<lparr>kind = k, title = [], label = [], width = 0, height = 0, parent = None,
             id_w = next_id s\<rparr> \<and>
     next_id s' = next_id s + 1 \<and> registry s' = registry s @ [a]"
  by (simp add: make_widget_eq Widget_init_def)

text \<open>
  Claim C10. For every handle that is the address of a widget (whose parent pointer is
  null or the address of a widget, as \<open>dump_widget\<close> follows it),
  \<open>qt_widget_set_title\<close> with a null text returns without fault and sets the widget's
  title to the empty string; and in every state \<open>qt_window_new\<close> with a null title
  creates a window whose title is the empty string.
\<close>

theorem qt_widget_set_title_null_text:
  "(a < length (heap s) \<and> valid_ptr s (parent (heap s ! a)) \<longrightarrow>
      (\<exists>s'. qt_widget_set_title (Some a) None s = Inr s' \<and> title (heap s' ! a) = [] \<and>
            heap s' = (heap s)[a := (heap s ! a)\<lparr>title := []\<rparr>])) \<and>
   (\<exists>b s'. qt_window_new None w h s = Inr (Some b, s') \<and> title (heap s' ! b) = [])"
proof (intro conjI impI)
  assume "a < length (heap s) \<and> valid_ptr s (parent (heap s ! a))"
  then have a: "a < length (heap s)" and p: "valid_ptr s (parent (heap s ! a))"
    by simp_all
  obtain s' where call: "qt_widget_set_title (Some a) None s = Inr s'"
    and cells: "heap s' = (heap s)[a := (heap s ! a)\<lparr>title := []\<rparr>]"
    using set_title_ok [OF a p, of None] by auto
  have "title (heap s' ! a) = []"
    using a by (simp add: cells)
  with call cells show "\<exists>s'. qt_widget_set_title (Some a) None s = Inr s' \<and>
      title (heap s' ! a) = [] \<and> heap s' = (heap s)[a := (heap s ! a)\<lparr>title := []\<rparr>]"
    by blast
next
  obtain s2 where new: "qt_window_new None w h s = Inr (Some (length (heap s)), s2)"
    and cells2: "heap s2 = heap s @
       [\<lparr>kind = Window, title = (case None of Some x \<Rightarrow> x | None \<Rightarrow> []), label = [],
         width = (if 0 <s w then w else 800), height = (if 0 <s h then h else 600),
         parent = None, id_w = next_id s\<rparr>]"
    using window_ok [of None w h s] by blast
  have "title (heap s2 ! length (heap s)) = []"
    by (simp add: cells2)
  with new show "\<exists>b s'. qt_window_new None w h s = Inr (Some b, s') \<and> title (heap s' ! b) = []"
    by blast
qed

text \<open>The button of \<open>two_widgets\<close> has the title \<open>old\<close> before the call.\<close>

theorem qt_widget_set_title_null_text_witness:
  "1 < length (heap two_widgets) \<and> valid_ptr two_widgets (parent (heap two_widgets ! 1)) \<and>
   title (heap two_widgets ! 1) = ''old'' \<and>
   (\<exists>s'. qt_widget_set_title (Some 1) None two_widgets = Inr s' \<and> title (heap s' ! 1) = [] \<and>
            heap s' = (heap two_widgets)[1 := (heap two_widgets ! 1)\<lparr>title := []\<rparr>]) \<and>
   (\<exists>b s'. qt_window_new None 0 0 two_widgets = Inr (Some b, s') \<and> title (heap s' ! b) = [])"
proof -
  have a: "1 < length (heap two_widgets)"
    by (simp add: two_widgets_def)
  have p: "valid_ptr two_widgets (parent (heap two_widgets ! 1))"
    by (simp add: two_widgets_def valid_ptr_def)
  have "title (heap two_widgets ! 1) = ''old''"
    by (simp add: two_widgets_def)
  with a p qt_widget_set_title_null_text [of 1 two_widgets 0 0] show ?thesis
    by blast
qed

end
